theory Spec2Isabelle
  imports Main "HOL-Library.AList" "HOL-Library.Sublist"
begin

section \<open>Python values and string operations used by the toolkit\<close>

text \<open>
  The toolkit (\<^verbatim>\<open>iptv_quick_analysis.py\<close>) keeps its records as JSON dictionaries.
  A value read with \<^verbatim>\<open>dict.get\<close> is \<^verbatim>\<open>None\<close> when the key is absent (or JSON null),
  so such a value is a \<open>string option\<close>. Python's truth test on it is \<open>truthy\<close>:
  \<^verbatim>\<open>None\<close> and the empty string are false.
\<close>

definition truthy :: "string option \<Rightarrow> bool" where
  "truthy v = (case v of None \<Rightarrow> False | Some s \<Rightarrow> (case s of [] \<Rightarrow> False | _ # _ \<Rightarrow> True))"

text \<open>Truth test of a string: only the empty string is false.\<close>

definition nonempty :: "string \<Rightarrow> bool" where
  "nonempty s = (case s of [] \<Rightarrow> False | _ # _ \<Rightarrow> True)"

text \<open>\<^verbatim>\<open>s.startswith(p)\<close>\<close>

fun startswith :: "string \<Rightarrow> string \<Rightarrow> bool" where
  "startswith s [] = True"
| "startswith [] (p # ps) = False"
| "startswith (c # s) (p # ps) = (c = p \<and> startswith s ps)"

text \<open>\<^verbatim>\<open>sub in s\<close>\<close>

fun contains :: "string \<Rightarrow> string \<Rightarrow> bool" where
  "contains [] sub = startswith [] sub"
| "contains (c # s) sub = (if startswith (c # s) sub then True else contains s sub)"

text \<open>
  \<^verbatim>\<open>s.replace(old, new)\<close>: every non-overlapping occurrence of \<open>old\<close>, from the left.
  With an empty \<open>old\<close> Python puts \<open>new\<close> before every character and at the end.
\<close>

fun replace_ne :: "string \<Rightarrow> char \<Rightarrow> string \<Rightarrow> string \<Rightarrow> string" where
  "replace_ne [] o1 os new = []"
| "replace_ne (c # s) o1 os new =
     (if c = o1 \<and> startswith s os then new @ replace_ne (drop (length os) s) o1 os new
      else c # replace_ne s o1 os new)"

definition replace :: "string \<Rightarrow> string \<Rightarrow> string \<Rightarrow> string" where
  "replace s old new =
     (case old of
        [] \<Rightarrow> concat (map (\<lambda>c. new @ [c]) s) @ new
      | o1 # os \<Rightarrow> replace_ne s o1 os new)"

text \<open>\<^verbatim>\<open>s.lower()\<close> on the ASCII letters (a \<open>char\<close> is a byte).\<close>

definition lower_char :: "char \<Rightarrow> char" where
  "lower_char c =
     (let n = (of_char c :: nat) in if 65 \<le> n \<and> n \<le> 90 then char_of (n + 32) else c)"

definition lower :: "string \<Rightarrow> string" where
  "lower s = map lower_char s"

section \<open>Records\<close>

text \<open>
  A channel record as \<^verbatim>\<open>extract_m3u_metadata\<close> builds it; \<^verbatim>\<open>matched_epg_id\<close> is the key
  \<^verbatim>\<open>smart_match\<close> adds, absent until then.
\<close>

record channel =
  TVG_ID :: string
  TVG_NAME :: string
  TVG_LOGO :: string
  TVG_GROUP :: string
  TVG_URL :: string
  TVG_LANGUAGE :: string
  source_url :: string
  matched_epg_id :: "string option"

text \<open>
  A guide entry as \<^verbatim>\<open>extract_epg_metadata\<close> builds it. The identifier is
  \<^verbatim>\<open>channel.get("id")\<close> and the name \<^verbatim>\<open>channel.findtext("display-name")\<close>; both are
  \<^verbatim>\<open>None\<close> when the attribute or the child element is missing.
\<close>

record epg_entry =
  EPG_TVG_ID :: "string option"
  TVG_EPGID :: "string option"
  TVG_EPGURL :: string
  entry_type :: string
  language :: string

section \<open>Deduplicator: \<^verbatim>\<open>deduplicate_channels\<close>\<close>

text \<open>
  \<^verbatim>\<open>
  seen = set()
  unique = []
  for ch in channels:
      tvg_id = ch.get("TVG-ID")
      if tvg_id and tvg_id not in seen:
          seen.add(tvg_id)
          unique.append(ch)
  \<close>
\<close>

fun dedup_loop :: "channel list \<Rightarrow> string set \<Rightarrow> channel list \<Rightarrow> channel list" where
  "dedup_loop [] seen unique = unique"
| "dedup_loop (ch # channels) seen unique =
     (let tvg_id = TVG_ID ch in
      if nonempty tvg_id \<and> tvg_id \<notin> seen
      then dedup_loop channels (insert tvg_id seen) (unique @ [ch])
      else dedup_loop channels seen unique)"

definition deduplicate_channels :: "channel list \<Rightarrow> channel list" where
  "deduplicate_channels channels = dedup_loop channels {} []"

text \<open>The three records of the specification's example.\<close>

definition mk_channel :: "string \<Rightarrow> string \<Rightarrow> channel" where
  "mk_channel i n =
     \<lparr>TVG_ID = i, TVG_NAME = n, TVG_LOGO = [], TVG_GROUP = [], TVG_URL = [],
      TVG_LANGUAGE = ''Unknown'', source_url = ''http://x/list.m3u'', matched_epg_id = None\<rparr>"

section \<open>Integrity Auditor: \<^verbatim>\<open>audit_epg_metadata\<close>\<close>

text \<open>
  \<^verbatim>\<open>
  seen_ids = set(); duplicates = []; null_entries = []; empty_sources = []
  for source, entries in epg_data.items():
      if not entries:
          empty_sources.append(source)
          continue
      for entry in entries:
          tvg_id = entry.get("TVG-ID")
          tvg_epgid = entry.get("TVG-EPGID")
          if not tvg_id and not tvg_epgid:
              null_entries.append((source, entry))
          elif tvg_id in seen_ids:
              duplicates.append((source, tvg_id))
          else:
              seen_ids.add(tvg_id)
  \<close>
  The grouped guide data is a dictionary in insertion order: an association list.
\<close>

record audit =
  seen_ids :: "string option set"
  duplicates :: "(string \<times> string option) list"
  null_entries :: "(string \<times> epg_entry) list"
  empty_sources :: "string list"

fun audit_entries :: "string \<Rightarrow> epg_entry list \<Rightarrow> audit \<Rightarrow> audit" where
  "audit_entries source [] a = a"
| "audit_entries source (entry # entries) a =
     (let tvg_id = EPG_TVG_ID entry; tvg_epgid = TVG_EPGID entry in
      if \<not> truthy tvg_id \<and> \<not> truthy tvg_epgid
      then audit_entries source entries (a\<lparr>null_entries := null_entries a @ [(source, entry)]\<rparr>)
      else if tvg_id \<in> seen_ids a
      then audit_entries source entries (a\<lparr>duplicates := duplicates a @ [(source, tvg_id)]\<rparr>)
      else audit_entries source entries (a\<lparr>seen_ids := insert tvg_id (seen_ids a)\<rparr>))"

fun audit_sources :: "(string \<times> epg_entry list) list \<Rightarrow> audit \<Rightarrow> audit" where
  "audit_sources [] a = a"
| "audit_sources ((source, entries) # rest) a =
     (case entries of
        [] \<Rightarrow> audit_sources rest (a\<lparr>empty_sources := empty_sources a @ [source]\<rparr>)
      | _ # _ \<Rightarrow> audit_sources rest (audit_entries source entries a))"

definition audit_epg_metadata :: "(string \<times> epg_entry list) list \<Rightarrow> audit" where
  "audit_epg_metadata epg_data =
     audit_sources epg_data \<lparr>seen_ids = {}, duplicates = [], null_entries = [], empty_sources = []\<rparr>"

definition mk_entry :: "string option \<Rightarrow> string option \<Rightarrow> string \<Rightarrow> epg_entry" where
  "mk_entry i n url =
     \<lparr>EPG_TVG_ID = i, TVG_EPGID = n, TVG_EPGURL = url, entry_type = ''EPG'', language = ''unknown''\<rparr>"

section \<open>Error Classifier: \<^verbatim>\<open>categorize_error\<close>\<close>

text \<open>
  \<^verbatim>\<open>
  msg = str(e).lower()
  if "timeout" in msg: return "Timeout"
  elif "dns" in msg or "name resolution" in msg: return "DNSFailure"
  elif "connection" in msg: return "ConnectionError"
  else: return "UnknownError"
  \<close>
  The argument is the text \<^verbatim>\<open>str(e)\<close> of the exception.
\<close>

definition categorize_error :: "string \<Rightarrow> string" where
  "categorize_error e =
     (let msg = lower e in
      if contains msg ''timeout'' then ''Timeout''
      else if contains msg ''dns'' \<or> contains msg ''name resolution'' then ''DNSFailure''
      else if contains msg ''connection'' then ''ConnectionError''
      else ''UnknownError'')"

section \<open>The URL store and the Mirror Advisor: \<^verbatim>\<open>suggest_mirror\<close>\<close>

text \<open>
  One entry of a URL's status history: the dictionary \<^verbatim>\<open>status\<close> of an attempt that got a
  response (timestamp, status code, ok flag, response time in ms), or the dictionary
  \<^verbatim>\<open>error_log\<close> of an attempt that raised (timestamp, error type, error message).
\<close>

datatype status_record =
    Status string int bool int
  | ErrorLog string string string

text \<open>
  One entry of \<^verbatim>\<open>last_status\<close>. The keys an entry does not carry are \<open>None\<close>; the
  validator always writes \<^verbatim>\<open>alive\<close> and \<^verbatim>\<open>last_checked\<close>, an entry of the loaded file
  may lack \<^verbatim>\<open>alive\<close>, which the dead-link filter reads with \<^verbatim>\<open>.get("alive", False)\<close>.
\<close>

record last_status_entry =
  alive :: "bool option"
  last_checked :: string
  response_time_ms :: "int option"
  error_type :: "string option"
  error_message :: "string option"

text \<open>
  The content of \<^verbatim>\<open>playlist_epg_urls.json\<close>. A key that is absent reads as the empty
  list or the empty dictionary (\<^verbatim>\<open>data.get(category, [])\<close>, \<^verbatim>\<open>data.setdefault(key, {})\<close>).
\<close>

record data =
  playlist_urls :: "string list"
  epg_urls :: "string list"
  status_history :: "string \<rightharpoonup> status_record list"
  last_status :: "string \<rightharpoonup> last_status_entry"
  mirror_suggestions :: "string \<rightharpoonup> string"

definition MIRROR_MAP :: "(string \<times> string) list" where
  "MIRROR_MAP =
     [(''iptv-org.github.io'', ''raw.githubusercontent.com/iptv-org''),
      (''epg.pw'', ''epgshare01.online'')]"

text \<open>
  \<^verbatim>\<open>
  for key, mirror in MIRROR_MAP.items():
      if key in url:
          suggested = url.replace(key, mirror)
          data.setdefault("mirror_suggestions", {})[url] = suggested
  \<close>
  The loop has no \<^verbatim>\<open>break\<close>: every key is tried against the original URL.
\<close>

fun suggest_loop :: "(string \<times> string) list \<Rightarrow> string \<Rightarrow> data \<Rightarrow> data" where
  "suggest_loop [] url d = d"
| "suggest_loop ((key, mirror) # rest) url d =
     (if contains url key
      then (let suggested = replace url key mirror in
            suggest_loop rest url (d\<lparr>mirror_suggestions := (mirror_suggestions d)(url \<mapsto> suggested)\<rparr>))
      else suggest_loop rest url d)"

definition suggest_mirror :: "string \<Rightarrow> data \<Rightarrow> data" where
  "suggest_mirror url d = suggest_loop MIRROR_MAP url d"

section \<open>Endpoint Validator: \<^verbatim>\<open>validate_urls\<close>\<close>

text \<open>
  What one call \<^verbatim>\<open>requests.head(url, timeout=10)\<close> does: it returns a response, of which
  the code reads \<^verbatim>\<open>status_code\<close> and \<^verbatim>\<open>ok\<close> and for which it measures the elapsed
  milliseconds, or it raises an exception with text \<^verbatim>\<open>str(e)\<close>.
\<close>

datatype outcome =
    Response int bool int
  | Raised string

record summary =
  sum_checked :: int
  sum_alive :: int
  sum_dead :: int
  sum_errors :: "string \<rightharpoonup> int"

text \<open>
  The state of a validation pass: the URL store, the summary counters, and the arguments
  of the calls of \<^verbatim>\<open>time.sleep\<close> so far, in order.
\<close>

record run =
  data :: data
  summary :: summary
  sleeps :: "int list"

definition history_of :: "data \<Rightarrow> string \<Rightarrow> status_record list" where
  "history_of d url = (case status_history d url of None \<Rightarrow> [] | Some h \<Rightarrow> h)"

text \<open>\<^verbatim>\<open>data.setdefault("status_history", {}).setdefault(url, []).append(rec)\<close>\<close>

definition append_history :: "string \<Rightarrow> status_record \<Rightarrow> data \<Rightarrow> data" where
  "append_history url rec d =
     d\<lparr>status_history := (status_history d)(url \<mapsto> history_of d url @ [rec])\<rparr>"

text \<open>\<^verbatim>\<open>data.setdefault("last_status", {})[url] = entry\<close>\<close>

definition set_last_status :: "string \<Rightarrow> last_status_entry \<Rightarrow> data \<Rightarrow> data" where
  "set_last_status url entry d = d\<lparr>last_status := (last_status d)(url \<mapsto> entry)\<rparr>"

text \<open>
  The retry loop \<^verbatim>\<open>for attempt in range(3)\<close> of one URL; \<open>head attempt\<close> is the outcome of
  the request of that attempt. The result is the flag \<^verbatim>\<open>success\<close> and the new state.
  \<^verbatim>\<open>
  try:
      response = requests.head(url, timeout=10)
      status = {timestamp, status_code, ok, response_time_ms}
      data...["status_history"][url].append(status)
      data...["last_status"][url] = {"alive": response.ok, "last_checked": timestamp,
                                     "response_time_ms": elapsed}
      if response.ok:
          summary["alive"] += 1; success = True; break
  except Exception as e:
      error_type = categorize_error(e)
      summary["dead"] += 1
      summary["errors"][error_type] = summary["errors"].get(error_type, 0) + 1
      data...["status_history"][url].append(error_log)
      data...["last_status"][url] = {"alive": False, "last_checked": timestamp,
                                     "error_type": error_type, "error_message": str(e)}
      time.sleep(2 ** attempt)
  \<close>
\<close>

fun attempts :: "string \<Rightarrow> string \<Rightarrow> (nat \<Rightarrow> outcome) \<Rightarrow> nat list \<Rightarrow> run \<Rightarrow> bool \<times> run" where
  "attempts timestamp url head [] r = (False, r)"
| "attempts timestamp url head (attempt # rest) r =
     (case head attempt of
        Response status_code ok elapsed \<Rightarrow>
          (let d1 = append_history url (Status timestamp status_code ok elapsed) (data r);
               d2 = set_last_status url
                      \<lparr>alive = Some ok, last_checked = timestamp, response_time_ms = Some elapsed,
                       error_type = None, error_message = None\<rparr> d1;
               r2 = r\<lparr>data := d2\<rparr>
           in if ok
              then (True, r2\<lparr>summary := (summary r2)\<lparr>sum_alive := sum_alive (summary r2) + 1\<rparr>\<rparr>)
              else attempts timestamp url head rest r2)
      | Raised e \<Rightarrow>
          (let kind = categorize_error e;
               s1 = (summary r)\<lparr>sum_dead := sum_dead (summary r) + 1\<rparr>;
               s2 = s1\<lparr>sum_errors := (sum_errors s1)
                         (kind \<mapsto> (case sum_errors s1 kind of None \<Rightarrow> 0 | Some n \<Rightarrow> n) + 1)\<rparr>;
               d1 = append_history url (ErrorLog timestamp kind e) (data r);
               d2 = set_last_status url
                      \<lparr>alive = Some False, last_checked = timestamp, response_time_ms = None,
                       error_type = Some kind, error_message = Some e\<rparr> d1
           in attempts timestamp url head rest
                (r\<lparr>data := d2, summary := s2, sleeps := sleeps r @ [2 ^ attempt]\<rparr>)))"

text \<open>
  The body of \<^verbatim>\<open>for url in urls\<close>: count the URL, run the retry loop, and
  \<^verbatim>\<open>if not success: suggest_mirror(url, data)\<close>.
\<close>

definition validate_url :: "string \<Rightarrow> string \<Rightarrow> (nat \<Rightarrow> outcome) \<Rightarrow> run \<Rightarrow> run" where
  "validate_url timestamp url head r =
     (let r0 = r\<lparr>summary := (summary r)\<lparr>sum_checked := sum_checked (summary r) + 1\<rparr>\<rparr>;
          res = attempts timestamp url head [0..<3] r0
      in if \<not> fst res then (snd res)\<lparr>data := suggest_mirror url (data (snd res))\<rparr>
         else snd res)"

text \<open>
  \<^verbatim>\<open>for url in urls\<close>; \<open>net i\<close> gives the outcomes of the attempts for the \<open>i\<close>-th URL of
  the list.
\<close>

fun validate_category ::
  "string \<Rightarrow> (nat \<Rightarrow> nat \<Rightarrow> outcome) \<Rightarrow> nat \<Rightarrow> string list \<Rightarrow> run \<Rightarrow> run" where
  "validate_category timestamp net i [] r = r"
| "validate_category timestamp net i (url # urls) r =
     validate_category timestamp net (Suc i) urls (validate_url timestamp url (net i) r)"

text \<open>\<^verbatim>\<open>data.get(category, [])\<close>\<close>

definition get_category :: "data \<Rightarrow> string \<Rightarrow> string list" where
  "get_category d category =
     (if category = ''playlist_urls'' then playlist_urls d
      else if category = ''epg_urls'' then epg_urls d
      else [])"

text \<open>\<^verbatim>\<open>for category in ["playlist_urls", "epg_urls"]\<close>\<close>

fun validate_categories ::
  "string \<Rightarrow> (string \<Rightarrow> nat \<Rightarrow> nat \<Rightarrow> outcome) \<Rightarrow> string list \<Rightarrow> run \<Rightarrow> run" where
  "validate_categories timestamp net [] r = r"
| "validate_categories timestamp net (category # categories) r =
     validate_categories timestamp net categories
       (validate_category timestamp (net category) 0 (get_category (data r) category) r)"

text \<open>
  The dead-link snapshot:
  \<^verbatim>\<open>
  dead_links = {url: data["last_status"][url] for url in data.get("last_status", {})
                if not data["last_status"][url].get("alive", False)}
  \<close>
\<close>

definition get_alive :: "last_status_entry \<Rightarrow> bool" where
  "get_alive entry = (case alive entry of None \<Rightarrow> False | Some b \<Rightarrow> b)"

definition dead_links_of :: "data \<Rightarrow> (string \<rightharpoonup> last_status_entry)" where
  "dead_links_of d =
     (\<lambda>url. case last_status d url of
              None \<Rightarrow> None
            | Some entry \<Rightarrow> if \<not> get_alive entry then Some entry else None)"

text \<open>
  What a pass produces: the store written back to \<^verbatim>\<open>playlist_epg_urls.json\<close>, the
  dictionary written to \<^verbatim>\<open>dead_links.json\<close>, the summary that is logged and printed, and
  the sleeps it made.
\<close>

record validation =
  out_data :: data
  dead_links :: "string \<rightharpoonup> last_status_entry"
  out_summary :: summary
  out_sleeps :: "int list"

definition validate_pass ::
  "string \<Rightarrow> (string \<Rightarrow> nat \<Rightarrow> nat \<Rightarrow> outcome) \<Rightarrow> data \<Rightarrow> validation" where
  "validate_pass timestamp net d =
     (let r0 = \<lparr>data = d,
                summary = \<lparr>sum_checked = 0, sum_alive = 0, sum_dead = 0, sum_errors = Map.empty\<rparr>,
                sleeps = []\<rparr>;
          r = validate_categories timestamp net [''playlist_urls'', ''epg_urls''] r0
      in \<lparr>out_data = data r, dead_links = dead_links_of (data r),
          out_summary = summary r, out_sleeps = sleeps r\<rparr>)"

text \<open>
  \<^verbatim>\<open>validate_urls\<close>: when the URL file cannot be read (\<open>None\<close>) the pass is abandoned and
  nothing is produced; otherwise the pass runs. The time stamp is taken once, before the
  loops.
\<close>

definition validate_urls ::
  "string \<Rightarrow> (string \<Rightarrow> nat \<Rightarrow> nat \<Rightarrow> outcome) \<Rightarrow> data option \<Rightarrow> validation option" where
  "validate_urls timestamp net loaded =
     (case loaded of None \<Rightarrow> None | Some d \<Rightarrow> Some (validate_pass timestamp net d))"

subsection \<open>Reading a retry loop\<close>

text \<open>
  The attempts of a retry loop that are really made: the loop stops after the first
  attempt whose response is ok. An attempt succeeds when a response arrives with
  \<^verbatim>\<open>response.ok\<close> true; it raises when \<^verbatim>\<open>requests.head\<close> throws.
\<close>

definition succeeds :: "outcome \<Rightarrow> bool" where
  "succeeds out = (case out of Response status_code ok elapsed \<Rightarrow> ok | Raised e \<Rightarrow> False)"

definition raised :: "outcome \<Rightarrow> bool" where
  "raised out = (case out of Response status_code ok elapsed \<Rightarrow> False | Raised e \<Rightarrow> True)"

fun tried :: "(nat \<Rightarrow> outcome) \<Rightarrow> nat list \<Rightarrow> nat list" where
  "tried head [] = []"
| "tried head (attempt # rest) =
     (if succeeds (head attempt) then [attempt] else attempt # tried head rest)"

text \<open>The history entry and the \<^verbatim>\<open>last_status\<close> entry the loop writes for one outcome.\<close>

definition history_record :: "string \<Rightarrow> outcome \<Rightarrow> status_record" where
  "history_record timestamp out =
     (case out of
        Response status_code ok elapsed \<Rightarrow> Status timestamp status_code ok elapsed
      | Raised e \<Rightarrow> ErrorLog timestamp (categorize_error e) e)"

definition last_status_record :: "string \<Rightarrow> outcome \<Rightarrow> last_status_entry" where
  "last_status_record timestamp out =
     (case out of
        Response status_code ok elapsed \<Rightarrow>
          \<lparr>alive = Some ok, last_checked = timestamp, response_time_ms = Some elapsed,
           error_type = None, error_message = None\<rparr>
      | Raised e \<Rightarrow>
          \<lparr>alive = Some False, last_checked = timestamp, response_time_ms = None,
           error_type = Some (categorize_error e), error_message = Some e\<rparr>)"

text \<open>Whether a history entry records an ok response.\<close>

definition record_ok :: "status_record \<Rightarrow> bool" where
  "record_ok rec = (case rec of Status timestamp status_code ok elapsed \<Rightarrow> ok
                    | ErrorLog timestamp kind message \<Rightarrow> False)"

section \<open>Guide Extractor: \<^verbatim>\<open>extract_epg_metadata\<close>\<close>

text \<open>
  A \<^verbatim>\<open><channel>\<close> element of a guide document, as far as the extractor reads it: the
  attribute \<^verbatim>\<open>id\<close> and the text of the child \<^verbatim>\<open>display-name\<close>, each \<^verbatim>\<open>None\<close> when
  missing. Fetching and parsing one URL (\<^verbatim>\<open>requests.get\<close>, \<^verbatim>\<open>ET.fromstring\<close>) either
  raises or gives the list \<^verbatim>\<open>root.findall("channel")\<close>.
\<close>

type_synonym xml_channel = "string option \<times> string option"

datatype fetched =
    Failed string
  | Document "xml_channel list"

text \<open>
  \<^verbatim>\<open>
  for channel in root.findall("channel"):
      tvg_id = channel.get("id")
      tvg_epgid = channel.findtext("display-name")
      if not tvg_id and not tvg_epgid:
          continue
      entries.append({"TVG-ID": tvg_id, "TVG-EPGID": tvg_epgid, "TVG-EPGURL": url,
                      "type": "EPG", "language": "unknown"})
  \<close>
\<close>

fun epg_entries_of :: "string \<Rightarrow> xml_channel list \<Rightarrow> epg_entry list \<Rightarrow> epg_entry list" where
  "epg_entries_of url [] entries = entries"
| "epg_entries_of url ((tvg_id, tvg_epgid) # channels) entries =
     (if \<not> truthy tvg_id \<and> \<not> truthy tvg_epgid
      then epg_entries_of url channels entries
      else epg_entries_of url channels
             (entries @ [\<lparr>EPG_TVG_ID = tvg_id, TVG_EPGID = tvg_epgid, TVG_EPGURL = url,
                          entry_type = ''EPG'', language = ''unknown''\<rparr>]))"

text \<open>
  \<^verbatim>\<open>for url in data.get("epg_urls", [])\<close>, with \<^verbatim>\<open>epg_data[url] = entries\<close> as the last
  statement of the \<^verbatim>\<open>try\<close> block; the \<^verbatim>\<open>except\<close> branch only logs. \<open>fetch i\<close> is what
  fetching and parsing the \<open>i\<close>-th URL gives. The dictionary \<^verbatim>\<open>epg_data\<close> keeps insertion
  order, and assigning to a key that is present keeps its place.
\<close>

fun extract_epg_loop ::
  "(nat \<Rightarrow> fetched) \<Rightarrow> nat \<Rightarrow> string list \<Rightarrow> (string \<times> epg_entry list) list
   \<Rightarrow> (string \<times> epg_entry list) list" where
  "extract_epg_loop fetch i [] epg_data = epg_data"
| "extract_epg_loop fetch i (url # urls) epg_data =
     (case fetch i of
        Failed e \<Rightarrow> extract_epg_loop fetch (Suc i) urls epg_data
      | Document channels \<Rightarrow>
          extract_epg_loop fetch (Suc i) urls
            (AList.update url (epg_entries_of url channels []) epg_data))"

definition extract_epg_metadata ::
  "(nat \<Rightarrow> fetched) \<Rightarrow> data option \<Rightarrow> (string \<times> epg_entry list) list option" where
  "extract_epg_metadata fetch loaded =
     (case loaded of None \<Rightarrow> None
      | Some d \<Rightarrow> Some (extract_epg_loop fetch 0 (epg_urls d) []))"

definition parsed :: "fetched \<Rightarrow> bool" where
  "parsed f = (case f of Failed e \<Rightarrow> False | Document channels \<Rightarrow> True)"

section \<open>Playlist Extractor: \<^verbatim>\<open>extract_m3u_metadata\<close>\<close>

text \<open>
  \<^verbatim>\<open>re.search(name + '="(.*?)"', info)\<close> and its group 1: at the leftmost position where
  the literal \<^verbatim>\<open>name="\<close> stands and a closing quote follows with no line feed before it
  (\<^verbatim>\<open>.\<close> does not match a line feed), the text up to that first closing quote.
\<close>

definition dquote :: char where
  "dquote = CHR 0x22"

definition newline :: char where
  "newline = CHR 0x0A"

fun re_search_attr :: "string \<Rightarrow> string \<Rightarrow> string option" where
  "re_search_attr pat [] = None"
| "re_search_attr pat (c # s) =
     (if startswith (c # s) pat
      then (let rest = drop (length pat) (c # s);
                grp = takeWhile (\<lambda>x. \<not> (x = dquote \<or> x = newline)) rest
            in if startswith (drop (length grp) rest) [dquote] then Some grp
               else re_search_attr pat s)
      else re_search_attr pat s)"

definition attr_pattern :: "string \<Rightarrow> string" where
  "attr_pattern name = name @ ''='' @ [dquote]"

text \<open>\<^verbatim>\<open>m.group(1) if m else ""\<close>\<close>

definition group1_or_empty :: "string option \<Rightarrow> string" where
  "group1_or_empty m = (case m of None \<Rightarrow> [] | Some g \<Rightarrow> g)"

text \<open>The dictionary \<^verbatim>\<open>channel\<close> built from a header line and the stream line.\<close>

definition channel_of :: "string \<Rightarrow> string \<Rightarrow> string \<Rightarrow> channel" where
  "channel_of url info stream =
     (let tvg_id = re_search_attr (attr_pattern ''tvg-id'') info;
          tvg_name = re_search_attr (attr_pattern ''tvg-name'') info;
          tvg_logo = re_search_attr (attr_pattern ''tvg-logo'') info;
          group_title = re_search_attr (attr_pattern ''group-title'') info
      in \<lparr>TVG_ID = group1_or_empty tvg_id, TVG_NAME = group1_or_empty tvg_name,
          TVG_LOGO = group1_or_empty tvg_logo, TVG_GROUP = group1_or_empty group_title,
          TVG_URL = stream, TVG_LANGUAGE = ''Unknown'', source_url = url,
          matched_epg_id = None\<rparr>)"

text \<open>
  The body of \<^verbatim>\<open>for i in range(len(lines))\<close>:
  \<^verbatim>\<open>
  if lines[i].startswith("#EXTINF"):
      info = lines[i]
      stream = lines[i+1] if i+1 < len(lines) else ""
      channel = {...}
      if channel["TVG-NAME"] or channel["TVG-ID"]:
          channels.append(channel)
  \<close>
\<close>

definition m3u_line :: "string \<Rightarrow> string list \<Rightarrow> nat \<Rightarrow> channel list \<Rightarrow> channel list" where
  "m3u_line url lines i channels =
     (if startswith (lines ! i) ''#EXTINF''
      then (let info = lines ! i;
                stream = (if i + 1 < length lines then lines ! (i + 1) else []);
                channel = channel_of url info stream
            in if nonempty (TVG_NAME channel) \<or> nonempty (TVG_ID channel)
               then channels @ [channel] else channels)
      else channels)"

definition parse_playlist :: "string \<Rightarrow> string list \<Rightarrow> channel list \<Rightarrow> channel list" where
  "parse_playlist url lines channels = fold (m3u_line url lines) [0..<length lines] channels"

text \<open>
  \<^verbatim>\<open>for url in data.get("playlist_urls", [])\<close>; \<open>fetch i\<close> is
  \<^verbatim>\<open>response.text.splitlines()\<close> for the \<open>i\<close>-th URL, or \<open>None\<close> when the request raises
  (the URL is logged and skipped).
\<close>

fun extract_m3u_loop ::
  "(nat \<Rightarrow> string list option) \<Rightarrow> nat \<Rightarrow> string list \<Rightarrow> channel list \<Rightarrow> channel list" where
  "extract_m3u_loop fetch i [] channels = channels"
| "extract_m3u_loop fetch i (url # urls) channels =
     (case fetch i of
        None \<Rightarrow> extract_m3u_loop fetch (Suc i) urls channels
      | Some lines \<Rightarrow> extract_m3u_loop fetch (Suc i) urls (parse_playlist url lines channels))"

definition extract_m3u_metadata ::
  "(nat \<Rightarrow> string list option) \<Rightarrow> data option \<Rightarrow> channel list option" where
  "extract_m3u_metadata fetch loaded =
     (case loaded of None \<Rightarrow> None
      | Some d \<Rightarrow> Some (extract_m3u_loop fetch 0 (playlist_urls d) []))"

text \<open>The line a header at index \<open>i\<close> takes as its stream, and the headers that give a record.\<close>

definition stream_line :: "string list \<Rightarrow> nat \<Rightarrow> string" where
  "stream_line lines i = (if i + 1 < length lines then lines ! (i + 1) else [])"

definition is_header :: "string \<Rightarrow> bool" where
  "is_header line = startswith line ''#EXTINF''"

definition gives_record :: "string \<Rightarrow> bool" where
  "gives_record info =
     (is_header info \<and>
      (nonempty (group1_or_empty (re_search_attr (attr_pattern ''tvg-name'') info)) \<or>
       nonempty (group1_or_empty (re_search_attr (attr_pattern ''tvg-id'') info))))"

text \<open>A header line with an identifier and a name, for the examples.\<close>

definition header :: "string \<Rightarrow> string \<Rightarrow> string" where
  "header i n =
     ''#EXTINF:-1 tvg-id='' @ [dquote] @ i @ [dquote] @ '' tvg-name='' @ [dquote] @ n @ [dquote]
       @ '','' @ n"

section \<open>Reconciler: \<^verbatim>\<open>smart_match\<close> and \<^verbatim>\<open>fuzzy_match_channel_name\<close>\<close>

text \<open>
  The names bound in the module's namespace when its functions run: the names its import
  statements bind (lines 40 to 49 and 811), its constants and its functions. The statement
  \<^verbatim>\<open>from difflib import get_close_matches\<close> binds \<^verbatim>\<open>get_close_matches\<close> only.
\<close>

definition module_globals :: "string list" where
  "module_globals =
     [''os'', ''json'', ''requests'', ''ET'', ''re'', ''logging'', ''time'', ''html'',
      ''datetime'', ''get_close_matches'', ''csv'',
      ''BASE_DIR'', ''URL_JSON'', ''CHANNELS_JSON'', ''EPG_JSON'', ''DEAD_LINKS_JSON'',
      ''HTML_OUTPUT'', ''MIRROR_MAP'', ''CSV_OUTPUT'',
      ''categorize_error'', ''suggest_mirror'', ''validate_urls'', ''extract_m3u_metadata'',
      ''extract_epg_metadata'', ''audit_epg_metadata'', ''smart_match'',
      ''fuzzy_match_channel_name'', ''match_channels_to_epg'', ''generate_html_report'',
      ''format_html_table'', ''export_channels_to_csv'', ''export_epg_to_csv'',
      ''deduplicate_channels'', ''export_html_to_pdf'', ''filter_channels'',
      ''search_channels'', ''export_filtered_channels_to_csv'', ''compare_channels'',
      ''generate_summary_dashboard'', ''menu'', ''launch_dashboard'']"

datatype py_error = NameError string

text \<open>
  \<^verbatim>\<open>
  epg_names = [entry.get("TVG-EPGID", "") for entry in epg_entries if entry.get("TVG-EPGID")]
  matches = difflib.get_close_matches(channel_name, epg_names, n=1, cutoff=threshold)
  if matches: return matches[0]
  else: return None
  \<close>
  The library function is a parameter \<open>close_matches\<close> (word, possibilities, n, cutoff);
  reaching it goes through the global name \<^verbatim>\<open>difflib\<close>, and reading a global name that
  is not bound raises \<^verbatim>\<open>NameError\<close>.
\<close>

definition fuzzy_match_channel_name ::
  "(string \<Rightarrow> string list \<Rightarrow> nat \<Rightarrow> 'c \<Rightarrow> string list) \<Rightarrow> string \<Rightarrow> epg_entry list \<Rightarrow> 'c
   \<Rightarrow> py_error + string option" where
  "fuzzy_match_channel_name close_matches channel_name epg_entries threshold =
     (let epg_names = map (\<lambda>entry. group1_or_empty (TVG_EPGID entry))
                          (filter (\<lambda>entry. truthy (TVG_EPGID entry)) epg_entries)
      in if ''difflib'' \<in> set module_globals
         then (case close_matches channel_name epg_names 1 threshold of
                 [] \<Rightarrow> Inr None
               | m # ms \<Rightarrow> Inr (Some m))
         else Inl (NameError ''difflib''))"

text \<open>
  The loop of \<^verbatim>\<open>smart_match\<close> over the channels; a raise of the matching function is not
  caught there and ends the loop.
  \<^verbatim>\<open>
  for ch in channels:
      name = ch.get("TVG-NAME")
      if not name: continue
      match = fuzzy_match_channel_name(name, epg_entries)
      if match:
          ch["matched_epg_id"] = match
          matched += 1
  \<close>
\<close>

fun match_loop ::
  "(string \<Rightarrow> string list \<Rightarrow> nat \<Rightarrow> 'c \<Rightarrow> string list) \<Rightarrow> 'c \<Rightarrow> epg_entry list \<Rightarrow> channel list
   \<Rightarrow> channel list \<Rightarrow> int \<Rightarrow> py_error + (channel list \<times> int)" where
  "match_loop close_matches threshold epg_entries [] visited matched = Inr (visited, matched)"
| "match_loop close_matches threshold epg_entries (ch # channels) visited matched =
     (let name = TVG_NAME ch in
      if \<not> nonempty name
      then match_loop close_matches threshold epg_entries channels (visited @ [ch]) matched
      else (case fuzzy_match_channel_name close_matches name epg_entries threshold of
              Inl err \<Rightarrow> Inl err
            | Inr match \<Rightarrow>
                if truthy match
                then match_loop close_matches threshold epg_entries channels
                       (visited @ [ch\<lparr>matched_epg_id := match\<rparr>]) (matched + 1)
                else match_loop close_matches threshold epg_entries channels
                       (visited @ [ch]) matched))"

text \<open>
  \<^verbatim>\<open>smart_match\<close> after both files are loaded: the guide groups are flattened in order,
  and the matching function is called with its default threshold.
\<close>

definition smart_match ::
  "(string \<Rightarrow> string list \<Rightarrow> nat \<Rightarrow> 'c \<Rightarrow> string list) \<Rightarrow> 'c \<Rightarrow> channel list
   \<Rightarrow> (string \<times> epg_entry list) list \<Rightarrow> py_error + (channel list \<times> int)" where
  "smart_match close_matches default_threshold channels epg_grouped =
     match_loop close_matches default_threshold (concat (map snd epg_grouped)) channels [] 0"

section \<open>Example stores and networks\<close>

text \<open>
  A URL file with one playlist URL, and three networks: one whose first attempt times out
  and whose later attempts are answered with 200, one where every request is refused,
  and one that answers every request with 404. \<open>store2\<close> adds a guide URL, and
  \<open>net_mixed\<close> answers playlist requests with 200 and guide requests with 404.
  \<open>run0\<close> is the state in which a pass starts; \<open>guide_fetch\<close> parses every guide
  URL but the second.
\<close>

definition store1 :: data where
  "store1 = \<lparr>playlist_urls = [''http://a/x.m3u''], epg_urls = [], status_history = Map.empty,
             last_status = Map.empty, mirror_suggestions = Map.empty\<rparr>"

definition net_flaky :: "string \<Rightarrow> nat \<Rightarrow> nat \<Rightarrow> outcome" where
  "net_flaky category i attempt =
     (if attempt = 0 then Raised ''Read timed out. (read timeout=10)'' else Response 200 True 12)"

definition net_down :: "string \<Rightarrow> nat \<Rightarrow> nat \<Rightarrow> outcome" where
  "net_down category i attempt = Raised ''Connection refused''"

definition net_404 :: "string \<Rightarrow> nat \<Rightarrow> nat \<Rightarrow> outcome" where
  "net_404 category i attempt = Response 404 False 7"

definition run0 :: "data \<Rightarrow> run" where
  "run0 d = \<lparr>data = d,
             summary = \<lparr>sum_checked = 0, sum_alive = 0, sum_dead = 0, sum_errors = Map.empty\<rparr>,
             sleeps = []\<rparr>"

definition store2 :: data where
  "store2 = \<lparr>playlist_urls = [''http://a/x.m3u''], epg_urls = [''http://epg.pw/guide.xml''],
             status_history = Map.empty, last_status = Map.empty,
             mirror_suggestions = Map.empty\<rparr>"

definition net_mixed :: "string \<Rightarrow> nat \<Rightarrow> nat \<Rightarrow> outcome" where
  "net_mixed category i attempt =
     (if category = ''playlist_urls'' then Response 200 True 12 else Response 404 False 7)"

definition guide_fetch :: "nat \<Rightarrow> fetched" where
  "guide_fetch i =
     (if i = 1 then Failed ''not well-formed (invalid token)''
      else Document [(Some ''bbc1'', Some ''BBC One HD''), (None, None)])"

section \<open>Properties of the Deduplicator\<close>

lemma dedup_loop_snoc:
  "dedup_loop (chs @ [ch]) seen unique =
     dedup_loop chs seen unique @
       (if nonempty (TVG_ID ch) \<and> TVG_ID ch \<notin> seen \<union> TVG_ID ` set chs then [ch] else [])"
proof (induction chs arbitrary: seen unique)
  case Nil
  then show ?case by (simp add: Let_def)
next
  case (Cons c chs)
  show ?case
  proof (cases "nonempty (TVG_ID c) \<and> TVG_ID c \<notin> seen")
    case True
    then show ?thesis
      using Cons.IH [of "insert (TVG_ID c) seen" "unique @ [c]"] by (simp add: Let_def)
  next
    case False
    have "nonempty (TVG_ID ch) \<and> TVG_ID ch \<notin> seen \<union> TVG_ID ` set (c # chs)
          \<longleftrightarrow> nonempty (TVG_ID ch) \<and> TVG_ID ch \<notin> seen \<union> TVG_ID ` set chs"
      using False by auto
    moreover have "dedup_loop (c # xs) seen unique = dedup_loop xs seen unique" for xs
      using False by (auto simp: Let_def)
    ultimately show ?thesis
      using Cons.IH [of seen unique] by simp
  qed
qed

lemma dedup_loop_append: "dedup_loop chs seen unique = unique @ dedup_loop chs seen []"
proof (induction chs arbitrary: seen unique)
  case Nil
  then show ?case by simp
next
  case (Cons c chs)
  show ?case
  proof (cases "nonempty (TVG_ID c) \<and> TVG_ID c \<notin> seen")
    case True
    then show ?thesis
      using Cons.IH [of "insert (TVG_ID c) seen" "unique @ [c]"]
        Cons.IH [of "insert (TVG_ID c) seen" "[c]"]
      by (simp add: Let_def)
  next
    case False
    then show ?thesis
      using Cons.IH [of seen unique] by (auto simp: Let_def)
  qed
qed

lemma dedup_loop_subseq: "subseq (dedup_loop chs seen []) chs"
proof (induction chs arbitrary: seen)
  case Nil
  then show ?case by simp
next
  case (Cons c chs)
  show ?case
  proof (cases "nonempty (TVG_ID c) \<and> TVG_ID c \<notin> seen")
    case True
    have "dedup_loop (c # chs) seen [] = c # dedup_loop chs (insert (TVG_ID c) seen) []"
      using True dedup_loop_append [of chs "insert (TVG_ID c) seen" "[c]"] by (simp add: Let_def)
    then show ?thesis using Cons.IH [of "insert (TVG_ID c) seen"] by simp
  next
    case False
    then have "dedup_loop (c # chs) seen [] = dedup_loop chs seen []"
      by (auto simp: Let_def)
    then show ?thesis using Cons.IH [of seen] by (simp add: list_emb_Cons)
  qed
qed

lemma nonempty_iff: "nonempty s \<longleftrightarrow> s \<noteq> []"
  by (cases s) (simp_all add: nonempty_def)

lemma dedup_ids:
  "TVG_ID ` set (dedup_loop chs {} []) = TVG_ID ` set chs - {[]}
   \<and> distinct (map TVG_ID (dedup_loop chs {} []))"
proof (induction chs rule: rev_induct)
  case Nil
  then show ?case by simp
next
  case (snoc ch chs)
  have step: "dedup_loop (chs @ [ch]) {} [] =
     dedup_loop chs {} [] @
       (if nonempty (TVG_ID ch) \<and> TVG_ID ch \<notin> TVG_ID ` set chs then [ch] else [])"
    using dedup_loop_snoc [of chs ch "{}" "[]"] by simp
  show ?case
  proof (cases "nonempty (TVG_ID ch) \<and> TVG_ID ch \<notin> TVG_ID ` set chs")
    case True
    then show ?thesis
      using snoc.IH by (auto simp: step nonempty_iff)
  next
    case False
    then show ?thesis
      using snoc.IH by (auto simp: step nonempty_iff)
  qed
qed

text \<open>
  C1 (as amended). One more channel at the end of the input is kept exactly when its
  identifier is non-empty and no earlier channel carries it; so a channel with an empty
  identifier is never kept, every non-empty identifier of the input is kept once (with its
  first channel), and the kept channels stand in their original order. On the example of
  the specification (two records with identifier "bbc1", one with an empty identifier) one
  record is left.
\<close>

theorem deduplicate_channels_keeps_first_nonempty:
  "deduplicate_channels [] = []
   \<and> deduplicate_channels (chs @ [ch]) =
       deduplicate_channels chs @
         (if nonempty (TVG_ID ch) \<and> TVG_ID ch \<notin> TVG_ID ` set chs then [ch] else [])
   \<and> [] \<notin> TVG_ID ` set (deduplicate_channels chs)
   \<and> TVG_ID ` set (deduplicate_channels chs) = TVG_ID ` set chs - {[]}
   \<and> distinct (map TVG_ID (deduplicate_channels chs))
   \<and> subseq (deduplicate_channels chs) chs
   \<and> deduplicate_channels
        [mk_channel ''bbc1'' ''BBC One'', mk_channel ''bbc1'' ''BBC One HD'', mk_channel [] ''ITV1'']
       = [mk_channel ''bbc1'' ''BBC One'']"
proof -
  have "deduplicate_channels (chs @ [ch]) =
       deduplicate_channels chs @
         (if nonempty (TVG_ID ch) \<and> TVG_ID ch \<notin> TVG_ID ` set chs then [ch] else [])"
    unfolding deduplicate_channels_def using dedup_loop_snoc [of chs ch "{}" "[]"] by simp
  moreover have "subseq (deduplicate_channels chs) chs"
    unfolding deduplicate_channels_def by (rule dedup_loop_subseq)
  moreover have ids: "TVG_ID ` set (deduplicate_channels chs) = TVG_ID ` set chs - {[]}"
    unfolding deduplicate_channels_def using dedup_ids [of chs] by blast
  moreover have "[] \<notin> TVG_ID ` set (deduplicate_channels chs)"
    unfolding ids by simp
  moreover have "distinct (map TVG_ID (deduplicate_channels chs))"
    unfolding deduplicate_channels_def using dedup_ids [of chs] by blast
  moreover have "deduplicate_channels
        [mk_channel ''bbc1'' ''BBC One'', mk_channel ''bbc1'' ''BBC One HD'', mk_channel [] ''ITV1'']
       = [mk_channel ''bbc1'' ''BBC One'']"
    by (simp add: deduplicate_channels_def mk_channel_def nonempty_def Let_def)
  moreover have "deduplicate_channels [] = []"
    by (simp add: deduplicate_channels_def)
  ultimately show ?thesis by blast
qed

text \<open>
  C1 as the specification states it fails: on its own example the record with the empty
  identifier is dropped and one record is left, not two.
\<close>

theorem deduplicate_channels_drops_empty_id:
  "TVG_ID (mk_channel [] ''ITV1'') = []
   \<and> mk_channel [] ''ITV1'' \<notin> set (deduplicate_channels
        [mk_channel ''bbc1'' ''BBC One'', mk_channel ''bbc1'' ''BBC One HD'', mk_channel [] ''ITV1''])
   \<and> length (deduplicate_channels
        [mk_channel ''bbc1'' ''BBC One'', mk_channel ''bbc1'' ''BBC One HD'', mk_channel [] ''ITV1'']) = 1"
  by (simp add: deduplicate_channels_def mk_channel_def nonempty_def Let_def)

section \<open>Properties of the Endpoint Validator\<close>

lemma upt3: "[0..<3] = [0, 1, 2]"
  by code_simp

lemma history_of_append [simp]:
  "history_of (append_history url rec d) u =
     (if u = url then history_of d url @ [rec] else history_of d u)"
  by (simp add: history_of_def append_history_def)

lemma history_of_set_last [simp]: "history_of (set_last_status url e d) u = history_of d u"
  by (simp add: history_of_def set_last_status_def)

lemma last_status_append [simp]: "last_status (append_history url rec d) = last_status d"
  by (simp add: append_history_def)

lemma last_status_set_last [simp]:
  "last_status (set_last_status url e d) = (last_status d)(url \<mapsto> e)"
  by (simp add: set_last_status_def)

lemma get_category_append [simp]:
  "get_category (append_history url rec d) c = get_category d c"
  by (simp add: get_category_def append_history_def)

lemma get_category_set_last [simp]:
  "get_category (set_last_status url e d) c = get_category d c"
  by (simp add: get_category_def set_last_status_def)

lemma mirror_append [simp]:
  "mirror_suggestions (append_history url rec d) = mirror_suggestions d"
  by (simp add: append_history_def)

lemma mirror_set_last [simp]:
  "mirror_suggestions (set_last_status url e d) = mirror_suggestions d"
  by (simp add: set_last_status_def)

lemma tried_nonempty: "as \<noteq> [] \<Longrightarrow> tried head as \<noteq> []"
  by (cases as) auto

lemma attempts_history:
  "history_of (data (snd (attempts ts url head as r))) u =
     (if u = url then history_of (data r) url @ map (\<lambda>a. history_record ts (head a)) (tried head as)
      else history_of (data r) u)"
proof (induction as arbitrary: r)
  case Nil
  then show ?case by simp
next
  case (Cons a as)
  show ?case
  proof (cases "head a")
    case (Response c ok el)
    then show ?thesis
      by (cases ok) (simp_all add: Cons.IH Let_def succeeds_def history_record_def)
  next
    case (Raised e)
    then show ?thesis
      by (simp add: Cons.IH Let_def succeeds_def history_record_def)
  qed
qed

lemma attempts_success: "fst (attempts ts url head as r) = (\<exists>a\<in>set as. succeeds (head a))"
proof (induction as arbitrary: r)
  case Nil
  then show ?case by simp
next
  case (Cons a as)
  show ?case
  proof (cases "head a")
    case (Response c ok el)
    then show ?thesis
      by (cases ok) (simp_all add: Cons.IH Let_def succeeds_def)
  next
    case (Raised e)
    then show ?thesis
      by (simp add: Cons.IH Let_def succeeds_def)
  qed
qed

lemma attempts_last_status:
  "last_status (data (snd (attempts ts url head as r))) u =
     (if u = url \<and> tried head as \<noteq> [] then Some (last_status_record ts (head (last (tried head as))))
      else last_status (data r) u)"
proof (induction as arbitrary: r)
  case Nil
  then show ?case by simp
next
  case (Cons a as)
  show ?case
  proof (cases "head a")
    case (Response c ok el)
    then show ?thesis
      by (cases ok) (simp_all add: Cons.IH Let_def succeeds_def last_status_record_def)
  next
    case (Raised e)
    then show ?thesis
      by (simp add: Cons.IH Let_def succeeds_def last_status_record_def)
  qed
qed

lemma attempts_category:
  "get_category (data (snd (attempts ts url head as r))) c = get_category (data r) c"
proof (induction as arbitrary: r)
  case Nil
  then show ?case by simp
next
  case (Cons a as)
  show ?case
  proof (cases "head a")
    case (Response c ok el)
    then show ?thesis
      by (cases ok) (simp_all add: Cons.IH Let_def)
  next
    case (Raised e)
    then show ?thesis
      by (simp add: Cons.IH Let_def)
  qed
qed

lemma suggest_loop_frame:
  "status_history (suggest_loop m url d) = status_history d
   \<and> last_status (suggest_loop m url d) = last_status d
   \<and> playlist_urls (suggest_loop m url d) = playlist_urls d
   \<and> epg_urls (suggest_loop m url d) = epg_urls d"
  by (induction m url d rule: suggest_loop.induct) (simp_all add: Let_def)

lemma suggest_mirror_frame [simp]:
  "history_of (suggest_mirror url d) u = history_of d u"
  "last_status (suggest_mirror url d) = last_status d"
  "get_category (suggest_mirror url d) c = get_category d c"
  by (simp_all add: suggest_mirror_def history_of_def get_category_def suggest_loop_frame)

lemma validate_url_history:
  "history_of (data (validate_url ts url head r)) u =
     (if u = url
      then history_of (data r) url @ map (\<lambda>a. history_record ts (head a)) (tried head [0..<3])
      else history_of (data r) u)"
  by (simp add: validate_url_def Let_def attempts_history)

lemma validate_url_last_status:
  "last_status (data (validate_url ts url head r)) u =
     (if u = url then Some (last_status_record ts (head (last (tried head [0..<3]))))
      else last_status (data r) u)"
  using tried_nonempty [of "[0..<3]" head]
  by (simp add: validate_url_def Let_def attempts_last_status)

lemma validate_url_category:
  "get_category (data (validate_url ts url head r)) c = get_category (data r) c"
  by (simp add: validate_url_def Let_def attempts_category)

lemma validate_category_append:
  "validate_category ts net i (xs @ ys) r =
     validate_category ts net (i + length xs) ys (validate_category ts net i xs r)"
  by (induction xs arbitrary: i r) simp_all

lemma validate_category_frame:
  "u \<notin> set urls \<Longrightarrow>
     history_of (data (validate_category ts net i urls r)) u = history_of (data r) u
     \<and> last_status (data (validate_category ts net i urls r)) u = last_status (data r) u"
  by (induction urls arbitrary: i r)
     (simp_all add: validate_url_history validate_url_last_status)

lemma validate_category_category:
  "get_category (data (validate_category ts net i urls r)) c = get_category (data r) c"
  by (induction urls arbitrary: i r) (simp_all add: validate_url_category)

lemma validate_category_once:
  assumes "u \<notin> set pre" "u \<notin> set post"
  shows "history_of (data (validate_category ts net 0 (pre @ u # post) r)) u =
           history_of (data r) u
             @ map (\<lambda>a. history_record ts (net (length pre) a)) (tried (net (length pre)) [0..<3])"
    and "last_status (data (validate_category ts net 0 (pre @ u # post) r)) u =
           Some (last_status_record ts (net (length pre) (last (tried (net (length pre)) [0..<3]))))"
  using assms
  by (simp_all add: validate_category_append validate_category_frame
      validate_url_history validate_url_last_status)

lemma tried_first_success:
  assumes "1 \<le> k" "k \<le> 3" "succeeds (head (k - 1))" "\<forall>j<k - 1. \<not> succeeds (head j)"
  shows "tried head [0..<3] = [0..<k]"
proof -
  from assms(1,2) consider "k = 1" | "k = 2" | "k = 3" by linarith
  then show ?thesis
  proof cases
    case 1
    then show ?thesis using assms by (simp add: upt3)
  next
    case 2
    then show ?thesis using assms by (simp add: upt3 upt_rec)
  next
    case 3
    have "\<not> succeeds (head 0)" "\<not> succeeds (head 1)" using assms(4) 3 by simp_all
    then show ?thesis using assms(3) 3 by (simp add: upt3)
  qed
qed

lemma validate_pass_unfold:
  "validate_pass ts net d =
     (let r0 = \<lparr>data = d,
                summary = \<lparr>sum_checked = 0, sum_alive = 0, sum_dead = 0, sum_errors = Map.empty\<rparr>,
                sleeps = []\<rparr>;
          r1 = validate_category ts (net ''playlist_urls'') 0 (playlist_urls d) r0;
          r2 = validate_category ts (net ''epg_urls'') 0 (epg_urls d) r1
      in \<lparr>out_data = data r2, dead_links = dead_links_of (data r2),
          out_summary = summary r2, out_sleeps = sleeps r2\<rparr>)"
proof -
  define r0 where "r0 = \<lparr>data = d,
                summary = \<lparr>sum_checked = 0, sum_alive = 0, sum_dead = 0, sum_errors = Map.empty\<rparr>,
                sleeps = []\<rparr>"
  have "get_category (data (validate_category ts (net ''playlist_urls'') 0 (playlist_urls d) r0))
          ''epg_urls'' = epg_urls d"
    by (simp add: validate_category_category) (simp add: get_category_def r0_def)
  then show ?thesis
    by (simp add: validate_pass_def Let_def r0_def [symmetric])
       (simp add: get_category_def r0_def)
qed

text \<open>
  For a URL that stands once in the two lists of the store, the visit is the only one of
  the pass, so the records of that visit are what the whole pass appends for the URL.
\<close>

lemma pass_success_once_listed:
  assumes "(category = ''playlist_urls'' \<and> url \<notin> set (epg_urls d))
           \<or> (category = ''epg_urls'' \<and> url \<notin> set (playlist_urls d))"
    and "get_category d category = pre @ url # post"
    and "url \<notin> set pre" and "url \<notin> set post"
    and "1 \<le> k" and "k \<le> 3"
    and "succeeds (net category (length pre) (k - 1))"
    and "\<forall>j<k - 1. \<not> succeeds (net category (length pre) j)"
  shows "history_of (out_data (validate_pass ts net d)) url =
           history_of d url @ map (\<lambda>j. history_record ts (net category (length pre) j)) [0..<k]
         \<and> length (history_of (out_data (validate_pass ts net d)) url) = length (history_of d url) + k
         \<and> map record_ok (drop (length (history_of d url))
                                (history_of (out_data (validate_pass ts net d)) url))
             = replicate (k - 1) False @ [True]
         \<and> last_status (out_data (validate_pass ts net d)) url =
             Some (last_status_record ts (net category (length pre) (k - 1)))
         \<and> alive (last_status_record ts (net category (length pre) (k - 1))) = Some True
         \<and> dead_links (validate_pass ts net d) url = None"
proof -
  define head where "head = net category (length pre)"
  define r0 where "r0 = \<lparr>data = d,
                summary = \<lparr>sum_checked = 0, sum_alive = 0, sum_dead = 0, sum_errors = Map.empty\<rparr>,
                sleeps = []\<rparr>"
  define r1 where "r1 = validate_category ts (net ''playlist_urls'') 0 (playlist_urls d) r0"
  define r2 where "r2 = validate_category ts (net ''epg_urls'') 0 (epg_urls d) r1"
  have tr: "tried head [0..<3] = [0..<k]"
    using assms(5-8) unfolding head_def by (rule tried_first_success)
  have lst: "last [0..<k] = k - 1"
    using assms(5) by (cases k) simp_all
  have out: "out_data (validate_pass ts net d) = data r2"
    and dl: "dead_links (validate_pass ts net d) = dead_links_of (data r2)"
    by (simp_all add: validate_pass_unfold Let_def r0_def r1_def r2_def)
  have hist: "history_of (data r2) url =
                history_of d url @ map (\<lambda>j. history_record ts (head j)) [0..<k]"
    and last: "last_status (data r2) url = Some (last_status_record ts (head (k - 1)))"
  proof -
    from assms(1) show "history_of (data r2) url =
                history_of d url @ map (\<lambda>j. history_record ts (head j)) [0..<k]"
    proof
      assume c: "category = ''playlist_urls'' \<and> url \<notin> set (epg_urls d)"
      then have p: "playlist_urls d = pre @ url # post"
        using assms(2) by (simp add: get_category_def)
      have "history_of (data r1) url =
              history_of (data r0) url @ map (\<lambda>j. history_record ts (head j)) [0..<k]"
        unfolding r1_def p head_def
        using validate_category_once(1) [OF assms(3,4)] tr c by (simp add: head_def)
      moreover have "history_of (data r2) url = history_of (data r1) url"
        unfolding r2_def using c by (simp add: validate_category_frame)
      ultimately show ?thesis by (simp add: r0_def)
    next
      assume c: "category = ''epg_urls'' \<and> url \<notin> set (playlist_urls d)"
      then have p: "epg_urls d = pre @ url # post"
        using assms(2) by (simp add: get_category_def)
      have "history_of (data r1) url = history_of (data r0) url"
        unfolding r1_def using c by (simp add: validate_category_frame)
      moreover have "history_of (data r2) url =
              history_of (data r1) url @ map (\<lambda>j. history_record ts (head j)) [0..<k]"
        unfolding r2_def p head_def
        using validate_category_once(1) [OF assms(3,4)] tr c by (simp add: head_def)
      ultimately show ?thesis by (simp add: r0_def)
    qed
    from assms(1) show "last_status (data r2) url = Some (last_status_record ts (head (k - 1)))"
    proof
      assume c: "category = ''playlist_urls'' \<and> url \<notin> set (epg_urls d)"
      then have p: "playlist_urls d = pre @ url # post"
        using assms(2) by (simp add: get_category_def)
      have "last_status (data r1) url = Some (last_status_record ts (head (k - 1)))"
        unfolding r1_def p head_def
        using validate_category_once(2) [OF assms(3,4)] tr lst c by (simp add: head_def)
      moreover have "last_status (data r2) url = last_status (data r1) url"
        unfolding r2_def using c by (simp add: validate_category_frame)
      ultimately show ?thesis by simp
    next
      assume c: "category = ''epg_urls'' \<and> url \<notin> set (playlist_urls d)"
      then have p: "epg_urls d = pre @ url # post"
        using assms(2) by (simp add: get_category_def)
      show ?thesis
        unfolding r2_def p head_def
        using validate_category_once(2) [OF assms(3,4)] tr lst c by (simp add: head_def)
    qed
  qed
  have ok_last: "succeeds (head (k - 1))" using assms(7) by (simp add: head_def)
  have ok_before: "\<not> succeeds (head j)" if "j < k - 1" for j
    using assms(8) that by (simp add: head_def)
  have rec_ok: "record_ok (history_record ts out) = succeeds out" for out
    by (cases out) (simp_all add: record_ok_def history_record_def succeeds_def)
  have upt_k: "[0..<k] = [0..<k - 1] @ [k - 1]"
    using assms(5) by (cases k) simp_all
  have "map (\<lambda>j. record_ok (history_record ts (head j))) [0..<k - 1] = replicate (k - 1) False"
    using ok_before by (auto intro!: nth_equalityI simp: rec_ok)
  then have oks: "map record_ok (map (\<lambda>j. history_record ts (head j)) [0..<k])
                  = replicate (k - 1) False @ [True]"
    using ok_last by (subst upt_k) (simp add: rec_ok comp_def)
  have al: "alive (last_status_record ts (head (k - 1))) = Some True"
    using ok_last by (cases "head (k - 1)") (simp_all add: last_status_record_def succeeds_def)
  have dead: "dead_links_of (data r2) url = None"
    using last al by (simp add: dead_links_of_def get_alive_def)
  show ?thesis
    using hist last oks al dead by (simp add: out dl head_def)
qed

text \<open>
  C7. One visit of a URL by the pass, from any state: when the liveness check first
  succeeds on attempt \<open>k\<close>, with \<open>k\<close> in 1..3, the visit appends exactly \<open>k\<close> records to
  the URL's history, namely the records of the attempts 0..k-1 in order, of which the
  first \<open>k - 1\<close> are not ok and the last is ok; after the visit the URL's
  \<^verbatim>\<open>last_status\<close> entry is that of the successful attempt, with \<^verbatim>\<open>alive\<close> true, and
  the dead-link filter leaves the URL out. There is no hypothesis on the store or on the
  lists: a URL that is listed twice is visited twice, and this holds for each visit.
\<close>

theorem success_on_attempt_k_appends_k_records:
  assumes "1 \<le> k" and "k \<le> 3"
    and "succeeds (head (k - 1))"
    and "\<forall>j<k - 1. \<not> succeeds (head j)"
  shows "history_of (data (validate_url ts url head r)) url =
           history_of (data r) url @ map (\<lambda>j. history_record ts (head j)) [0..<k]
         \<and> length (history_of (data (validate_url ts url head r)) url)
             = length (history_of (data r) url) + k
         \<and> map record_ok (drop (length (history_of (data r) url))
                                (history_of (data (validate_url ts url head r)) url))
             = replicate (k - 1) False @ [True]
         \<and> last_status (data (validate_url ts url head r)) url =
             Some (last_status_record ts (head (k - 1)))
         \<and> alive (last_status_record ts (head (k - 1))) = Some True
         \<and> dead_links_of (data (validate_url ts url head r)) url = None
         \<and> sum_alive (summary (validate_url ts url head r)) = sum_alive (summary r) + 1
         \<and> mirror_suggestions (data (validate_url ts url head r)) = mirror_suggestions (data r)"
proof -
  define r0 where "r0 = r\<lparr>summary := (summary r)\<lparr>sum_checked := sum_checked (summary r) + 1\<rparr>\<rparr>"
  have tr: "tried head [0..<3] = [0..<k]"
    using assms by (rule tried_first_success)
  have lst: "last [0..<k] = k - 1"
    using assms(1) by (cases k) simp_all
  have hist: "history_of (data (validate_url ts url head r)) url =
           history_of (data r) url @ map (\<lambda>j. history_record ts (head j)) [0..<k]"
    by (simp add: validate_url_history tr)
  have last: "last_status (data (validate_url ts url head r)) url =
             Some (last_status_record ts (head (k - 1)))"
    by (simp add: validate_url_last_status tr lst)
  have rec_ok: "record_ok (history_record ts out) = succeeds out" for out
    by (cases out) (simp_all add: record_ok_def history_record_def succeeds_def)
  have upt_k: "[0..<k] = [0..<k - 1] @ [k - 1]"
    using assms(1) by (cases k) simp_all
  have "map (\<lambda>j. record_ok (history_record ts (head j))) [0..<k - 1] = replicate (k - 1) False"
    using assms(4) by (auto intro!: nth_equalityI simp: rec_ok)
  then have oks: "map record_ok (map (\<lambda>j. history_record ts (head j)) [0..<k])
                  = replicate (k - 1) False @ [True]"
    using assms(3) by (subst upt_k) (simp add: rec_ok comp_def)
  have al: "alive (last_status_record ts (head (k - 1))) = Some True"
    using assms(3) by (cases "head (k - 1)") (simp_all add: last_status_record_def succeeds_def)
  have dead: "dead_links_of (data (validate_url ts url head r)) url = None"
    using last al by (simp add: dead_links_of_def get_alive_def)
  have "k - 1 \<in> set [0..<3]"
    using assms(1,2) by auto
  then have f: "fst (attempts ts url head [0..<3] r0)"
    using assms(3) unfolding attempts_success by blast
  then have v: "validate_url ts url head r = snd (attempts ts url head [0..<3] r0)"
    by (simp add: validate_url_def Let_def r0_def)
  have sa: "sum_alive (summary (snd (attempts ts url head as x))) =
              sum_alive (summary x) + (if \<exists>a\<in>set as. succeeds (head a) then 1 else 0)"
    for as x
  proof (induction as arbitrary: x)
    case Nil
    then show ?case by simp
  next
    case (Cons a as)
    show ?case
    proof (cases "head a")
      case (Response c ok el)
      then show ?thesis
        by (cases ok) (simp_all add: Cons.IH Let_def succeeds_def)
    next
      case (Raised e)
      then show ?thesis
        by (simp add: Cons.IH Let_def succeeds_def)
    qed
  qed
  have ms: "mirror_suggestions (data (snd (attempts ts url head as x))) = mirror_suggestions (data x)"
    for as x
  proof (induction as arbitrary: x)
    case Nil
    then show ?case by simp
  next
    case (Cons a as)
    show ?case
    proof (cases "head a")
      case (Response c ok el)
      then show ?thesis
        by (cases ok) (simp_all add: Cons.IH Let_def)
    next
      case (Raised e)
      then show ?thesis
        by (simp add: Cons.IH Let_def)
    qed
  qed
  have alive1: "sum_alive (summary (validate_url ts url head r)) = sum_alive (summary r) + 1"
    using f unfolding v sa attempts_success by (simp add: r0_def)
  have mirror: "mirror_suggestions (data (validate_url ts url head r)) = mirror_suggestions (data r)"
    unfolding v ms by (simp add: r0_def)
  show ?thesis
    using hist last oks al dead alive1 mirror by simp
qed

theorem success_on_attempt_k_witness:
  "succeeds (net_flaky ''playlist_urls'' 0 (2 - 1))
   \<and> history_of (data (validate_url ''t'' ''http://a/x.m3u'' (net_flaky ''playlist_urls'' 0)
                          (run0 store1))) ''http://a/x.m3u'' =
       [ErrorLog ''t'' ''Timeout'' ''Read timed out. (read timeout=10)'', Status ''t'' 200 True 12]
   \<and> last_status (data (validate_url ''t'' ''http://a/x.m3u'' (net_flaky ''playlist_urls'' 0)
                           (run0 store1))) ''http://a/x.m3u'' =
       Some \<lparr>alive = Some True, last_checked = ''t'', response_time_ms = Some 12,
             error_type = None, error_message = None\<rparr>"
proof -
  have h1: "(1::nat) \<le> 2" and h2: "(2::nat) \<le> 3" by simp_all
  have h3: "succeeds (net_flaky ''playlist_urls'' 0 (2 - 1))"
    by (simp add: net_flaky_def succeeds_def)
  have h4: "\<forall>j<2 - 1. \<not> succeeds (net_flaky ''playlist_urls'' 0 j)"
    by (simp add: net_flaky_def succeeds_def)
  note t = success_on_attempt_k_appends_k_records
    [where head = "net_flaky ''playlist_urls'' 0" and k = 2 and ts = "''t''"
       and url = "''http://a/x.m3u''" and r = "run0 store1", OF h1 h2 h3 h4]
  have cat: "categorize_error ''Read timed out. (read timeout=10)'' = ''Timeout''"
    by code_simp
  have upt2: "[0..<2] = [0, 1]" by code_simp
  have a: "history_of (data (run0 store1)) ''http://a/x.m3u'' = []"
    by (simp add: run0_def store1_def history_of_def)
  have b: "map (\<lambda>j. history_record ''t'' (net_flaky ''playlist_urls'' 0 j)) [0..<2]
           = [ErrorLog ''t'' ''Timeout'' ''Read timed out. (read timeout=10)'', Status ''t'' 200 True 12]"
    by (simp add: upt2 history_record_def net_flaky_def cat)
  have c: "last_status_record ''t'' (net_flaky ''playlist_urls'' 0 (2 - 1))
           = \<lparr>alive = Some True, last_checked = ''t'', response_time_ms = Some 12,
              error_type = None, error_message = None\<rparr>"
    by (simp add: last_status_record_def net_flaky_def)
  from t have "history_of (data (validate_url ''t'' ''http://a/x.m3u'' (net_flaky ''playlist_urls'' 0)
                          (run0 store1))) ''http://a/x.m3u'' =
           history_of (data (run0 store1)) ''http://a/x.m3u''
             @ map (\<lambda>j. history_record ''t'' (net_flaky ''playlist_urls'' 0 j)) [0..<2]"
    by (rule conjunct1)
  moreover from t have "last_status (data (validate_url ''t'' ''http://a/x.m3u''
                           (net_flaky ''playlist_urls'' 0) (run0 store1))) ''http://a/x.m3u'' =
             Some (last_status_record ''t'' (net_flaky ''playlist_urls'' 0 (2 - 1)))"
    by blast
  ultimately show ?thesis
    using h3 unfolding a b c by simp
qed

text \<open>
  C8. After a validation pass the dead-link snapshot is the restriction of the
  \<^verbatim>\<open>last_status\<close> mapping to the entries whose \<^verbatim>\<open>alive\<close> is not true: a URL of the
  mapping is in the snapshot exactly when the \<^verbatim>\<open>alive\<close> field of its entry is false (or
  missing, which \<^verbatim>\<open>.get("alive", False)\<close> reads as false); the snapshot maps such a URL
  to that same entry and has no entry for a URL whose \<^verbatim>\<open>alive\<close> is true or that is not
  in the mapping.
\<close>

theorem dead_links_snapshot_is_restriction:
  assumes "last_status (out_data (validate_pass ts net d)) u = Some e"
  shows "(u \<in> dom (dead_links (validate_pass ts net d))) = (alive e \<noteq> Some True)
         \<and> dead_links (validate_pass ts net d) u = (if alive e = Some True then None else Some e)
         \<and> dom (dead_links (validate_pass ts net d))
              \<subseteq> dom (last_status (out_data (validate_pass ts net d)))
         \<and> dead_links (validate_pass ts net d) =
             last_status (out_data (validate_pass ts net d))
               |` {v. \<exists>x. last_status (out_data (validate_pass ts net d)) v = Some x
                          \<and> alive x \<noteq> Some True}"
proof -
  define x where "x = out_data (validate_pass ts net d)"
  have out: "dead_links (validate_pass ts net d) = dead_links_of x"
    by (simp add: validate_pass_def Let_def x_def)
  have ga: "get_alive y = (alive y = Some True)" for y
    by (cases "alive y") (simp_all add: get_alive_def)
  have e: "last_status x u = Some e"
    using assms by (simp add: x_def)
  have 1: "(u \<in> dom (dead_links_of x)) = (alive e \<noteq> Some True)"
    using e by (simp add: dead_links_of_def dom_def ga)
  have 2: "dead_links_of x u = (if alive e = Some True then None else Some e)"
    using e by (simp add: dead_links_of_def ga)
  have 3: "dom (dead_links_of x) \<subseteq> dom (last_status x)"
    by (auto simp: dead_links_of_def dom_def split: option.splits if_splits)
  have 4: "dead_links_of x =
             last_status x |` {v. \<exists>y. last_status x v = Some y \<and> alive y \<noteq> Some True}"
    by (rule ext) (auto simp: dead_links_of_def restrict_map_def ga split: option.splits)
  show ?thesis
    unfolding out x_def [symmetric] using 1 2 3 4 by blast
qed

theorem dead_links_snapshot_witness:
  "last_status (out_data (validate_pass ''t'' net_mixed store2)) ''http://a/x.m3u'' =
     Some \<lparr>alive = Some True, last_checked = ''t'', response_time_ms = Some 12,
           error_type = None, error_message = None\<rparr>
   \<and> dead_links (validate_pass ''t'' net_mixed store2) ''http://a/x.m3u'' = None
   \<and> ''http://a/x.m3u'' \<notin> dom (dead_links (validate_pass ''t'' net_mixed store2))
   \<and> last_status (out_data (validate_pass ''t'' net_mixed store2)) ''http://epg.pw/guide.xml'' =
     Some \<lparr>alive = Some False, last_checked = ''t'', response_time_ms = Some 7,
           error_type = None, error_message = None\<rparr>
   \<and> dead_links (validate_pass ''t'' net_mixed store2) ''http://epg.pw/guide.xml'' =
     Some \<lparr>alive = Some False, last_checked = ''t'', response_time_ms = Some 7,
           error_type = None, error_message = None\<rparr>
   \<and> ''http://epg.pw/guide.xml'' \<in> dom (dead_links (validate_pass ''t'' net_mixed store2))"
proof -
  have h1: "last_status (out_data (validate_pass ''t'' net_mixed store2)) ''http://a/x.m3u'' =
     Some \<lparr>alive = Some True, last_checked = ''t'', response_time_ms = Some 12,
           error_type = None, error_message = None\<rparr>"
    by code_simp
  have h2: "last_status (out_data (validate_pass ''t'' net_mixed store2)) ''http://epg.pw/guide.xml'' =
     Some \<lparr>alive = Some False, last_checked = ''t'', response_time_ms = Some 7,
           error_type = None, error_message = None\<rparr>"
    by code_simp
  note t1 = dead_links_snapshot_is_restriction [OF h1]
  note t2 = dead_links_snapshot_is_restriction [OF h2]
  have a1: "dead_links (validate_pass ''t'' net_mixed store2) ''http://a/x.m3u'' = None"
    using t1 [THEN conjunct2, THEN conjunct1] by simp
  have b1: "''http://a/x.m3u'' \<notin> dom (dead_links (validate_pass ''t'' net_mixed store2))"
    using t1 [THEN conjunct1] by simp
  have a2: "dead_links (validate_pass ''t'' net_mixed store2) ''http://epg.pw/guide.xml'' =
     Some \<lparr>alive = Some False, last_checked = ''t'', response_time_ms = Some 7,
           error_type = None, error_message = None\<rparr>"
    using t2 [THEN conjunct2, THEN conjunct1] by simp
  have b2: "''http://epg.pw/guide.xml'' \<in> dom (dead_links (validate_pass ''t'' net_mixed store2))"
    using t2 [THEN conjunct1] by simp
  show ?thesis
    using h1 a1 b1 h2 a2 b2 by (intro conjI)
qed

text \<open>
  C10. A response that arrives with \<^verbatim>\<open>ok\<close> false consumes its attempt: the loop goes on
  to the next attempt in a state that differs only by the appended status record (with
  \<^verbatim>\<open>ok\<close> false, no error type, no message) and the \<^verbatim>\<open>last_status\<close> entry; the summary
  (dead counter, error map) and the sleeps are untouched. After three such responses the
  history has three more status records, the entry has \<^verbatim>\<open>alive\<close> false, the dead counter,
  the error map and the sleeps are as before, the flag \<^verbatim>\<open>success\<close> is false and the
  store is the result of \<^verbatim>\<open>suggest_mirror\<close> on the store the loop left.
\<close>

theorem non_ok_response_is_not_a_classified_failure:
  "(head a = Response c False e \<longrightarrow>
      attempts ts url head (a # rest) r =
        attempts ts url head rest
          (r\<lparr>data := set_last_status url
                         \<lparr>alive = Some False, last_checked = ts, response_time_ms = Some e,
                          error_type = None, error_message = None\<rparr>
                         (append_history url (Status ts c False e) (data r))\<rparr>))
   \<and> (head 0 = Response ca False ea \<and> head 1 = Response cb False eb
        \<and> head 2 = Response cc False ec \<longrightarrow>
      history_of (data (validate_url ts url head r)) url =
        history_of (data r) url
          @ [Status ts ca False ea, Status ts cb False eb, Status ts cc False ec]
      \<and> last_status (data (validate_url ts url head r)) url =
          Some \<lparr>alive = Some False, last_checked = ts, response_time_ms = Some ec,
                error_type = None, error_message = None\<rparr>
      \<and> sum_dead (summary (validate_url ts url head r)) = sum_dead (summary r)
      \<and> sum_errors (summary (validate_url ts url head r)) = sum_errors (summary r)
      \<and> sum_alive (summary (validate_url ts url head r)) = sum_alive (summary r)
      \<and> sleeps (validate_url ts url head r) = sleeps r
      \<and> \<not> fst (attempts ts url head [0..<3]
                 (r\<lparr>summary := (summary r)\<lparr>sum_checked := sum_checked (summary r) + 1\<rparr>\<rparr>))
      \<and> data (validate_url ts url head r) =
          suggest_mirror url
            (data (snd (attempts ts url head [0..<3]
                 (r\<lparr>summary := (summary r)\<lparr>sum_checked := sum_checked (summary r) + 1\<rparr>\<rparr>)))))"
proof (intro conjI impI)
  assume "head a = Response c False e"
  then show "attempts ts url head (a # rest) r =
        attempts ts url head rest
          (r\<lparr>data := set_last_status url
                         \<lparr>alive = Some False, last_checked = ts, response_time_ms = Some e,
                          error_type = None, error_message = None\<rparr>
                         (append_history url (Status ts c False e) (data r))\<rparr>)"
    by (simp add: Let_def)
next
  assume h: "head 0 = Response ca False ea \<and> head 1 = Response cb False eb
        \<and> head 2 = Response cc False ec"
  define r0 where "r0 = r\<lparr>summary := (summary r)\<lparr>sum_checked := sum_checked (summary r) + 1\<rparr>\<rparr>"
  have tr: "tried head [0..<3] = [0, 1, 2]"
    using h by (simp add: upt3 succeeds_def)
  have f: "\<not> fst (attempts ts url head [0..<3] r0)"
    using h by (simp add: attempts_success upt3 succeeds_def)
  have v: "validate_url ts url head r =
             (snd (attempts ts url head [0..<3] r0))
               \<lparr>data := suggest_mirror url (data (snd (attempts ts url head [0..<3] r0)))\<rparr>"
    using f by (simp add: validate_url_def Let_def r0_def)
  have s: "snd (attempts ts url head [0..<3] r0) =
             r0\<lparr>data := data (snd (attempts ts url head [0..<3] r0))\<rparr>"
    using h by (simp add: upt3 Let_def)
  show "history_of (data (validate_url ts url head r)) url =
        history_of (data r) url
          @ [Status ts ca False ea, Status ts cb False eb, Status ts cc False ec]"
    using h by (simp add: validate_url_history tr history_record_def)
  show "last_status (data (validate_url ts url head r)) url =
          Some \<lparr>alive = Some False, last_checked = ts, response_time_ms = Some ec,
                error_type = None, error_message = None\<rparr>"
    using h by (simp add: validate_url_last_status tr last_status_record_def)
  show "sum_dead (summary (validate_url ts url head r)) = sum_dead (summary r)"
    by (subst v, subst s) (simp add: r0_def)
  show "sum_errors (summary (validate_url ts url head r)) = sum_errors (summary r)"
    by (subst v, subst s) (simp add: r0_def)
  show "sum_alive (summary (validate_url ts url head r)) = sum_alive (summary r)"
    by (subst v, subst s) (simp add: r0_def)
  show "sleeps (validate_url ts url head r) = sleeps r"
    by (subst v, subst s) (simp add: r0_def)
  show "\<not> fst (attempts ts url head [0..<3]
                 (r\<lparr>summary := (summary r)\<lparr>sum_checked := sum_checked (summary r) + 1\<rparr>\<rparr>))"
    using f by (simp add: r0_def)
  show "data (validate_url ts url head r) =
          suggest_mirror url
            (data (snd (attempts ts url head [0..<3]
                 (r\<lparr>summary := (summary r)\<lparr>sum_checked := sum_checked (summary r) + 1\<rparr>\<rparr>))))"
    by (subst v) (simp add: r0_def)
qed

theorem non_ok_response_witness:
  "net_404 ''epg_urls'' 0 0 = Response 404 False 7
   \<and> attempts ''t'' ''http://epg.pw/guide.xml'' (net_404 ''epg_urls'' 0) (0 # [1, 2]) (run0 store1) =
       attempts ''t'' ''http://epg.pw/guide.xml'' (net_404 ''epg_urls'' 0) [1, 2]
         ((run0 store1)\<lparr>data := set_last_status ''http://epg.pw/guide.xml''
                         \<lparr>alive = Some False, last_checked = ''t'', response_time_ms = Some 7,
                          error_type = None, error_message = None\<rparr>
                         (append_history ''http://epg.pw/guide.xml'' (Status ''t'' 404 False 7)
                            (data (run0 store1)))\<rparr>)
   \<and> history_of (data (validate_url ''t'' ''http://epg.pw/guide.xml'' (net_404 ''epg_urls'' 0)
                          (run0 store1))) ''http://epg.pw/guide.xml'' =
       history_of (data (run0 store1)) ''http://epg.pw/guide.xml''
         @ [Status ''t'' 404 False 7, Status ''t'' 404 False 7, Status ''t'' 404 False 7]
   \<and> sum_dead (summary (validate_url ''t'' ''http://epg.pw/guide.xml'' (net_404 ''epg_urls'' 0)
                            (run0 store1))) = sum_dead (summary (run0 store1))
   \<and> sleeps (validate_url ''t'' ''http://epg.pw/guide.xml'' (net_404 ''epg_urls'' 0) (run0 store1))
       = sleeps (run0 store1)
   \<and> mirror_suggestions (data (validate_url ''t'' ''http://epg.pw/guide.xml''
                                   (net_404 ''epg_urls'' 0) (run0 store1)))
         ''http://epg.pw/guide.xml'' = Some ''http://epgshare01.online/guide.xml''"
proof -
  have h1: "net_404 ''epg_urls'' 0 0 = Response 404 False 7"
    by (simp add: net_404_def)
  have h2: "net_404 ''epg_urls'' 0 0 = Response 404 False 7
            \<and> net_404 ''epg_urls'' 0 1 = Response 404 False 7
            \<and> net_404 ''epg_urls'' 0 2 = Response 404 False 7"
    by (simp add: net_404_def)
  note t = non_ok_response_is_not_a_classified_failure
    [where head = "net_404 ''epg_urls'' 0" and a = 0 and c = 404 and e = 7 and ca = 404
       and ea = 7 and cb = 404 and eb = 7 and cc = 404 and ec = 7 and ts = "''t''"
       and url = "''http://epg.pw/guide.xml''" and r = "run0 store1" and rest = "[1, 2]"]
  have m: "mirror_suggestions (data (validate_url ''t'' ''http://epg.pw/guide.xml''
                                   (net_404 ''epg_urls'' 0) (run0 store1)))
         ''http://epg.pw/guide.xml'' = Some ''http://epgshare01.online/guide.xml''"
    by code_simp
  from t h1 h2 m show ?thesis by blast
qed

text \<open>
  C3 on the code. One URL whose first attempt times out and whose second attempt is ok:
  the URL is counted alive and its entry is alive, yet the dead counter is 1 and the error
  map counts one Timeout. One URL whose three attempts raise: the dead counter is 3. One
  URL that answers 404 three times, and so never succeeds: the dead counter is 0.
\<close>

theorem failed_attempts_counted_as_dead:
  "sum_checked (out_summary (validate_pass ''t'' net_flaky store1)) = 1
   \<and> sum_alive (out_summary (validate_pass ''t'' net_flaky store1)) = 1
   \<and> alive (the (last_status (out_data (validate_pass ''t'' net_flaky store1)) ''http://a/x.m3u''))
       = Some True
   \<and> sum_dead (out_summary (validate_pass ''t'' net_flaky store1)) = 1
   \<and> sum_errors (out_summary (validate_pass ''t'' net_flaky store1)) ''Timeout'' = Some 1
   \<and> sum_checked (out_summary (validate_pass ''t'' net_down store1)) = 1
   \<and> sum_dead (out_summary (validate_pass ''t'' net_down store1)) = 3
   \<and> sum_errors (out_summary (validate_pass ''t'' net_down store1)) ''ConnectionError'' = Some 3
   \<and> sum_alive (out_summary (validate_pass ''t'' net_404 store1)) = 0
   \<and> sum_dead (out_summary (validate_pass ''t'' net_404 store1)) = 0"
  by code_simp

text \<open>
  C6 on the code. One URL whose three attempts raise: the pass sleeps 1, 2 and 4 seconds,
  the last of them after the third and final attempt.
\<close>

theorem backoff_after_final_attempt:
  "out_sleeps (validate_pass ''t'' net_down store1) = [1, 2, 4]
   \<and> sum_alive (out_summary (validate_pass ''t'' net_down store1)) = 0
   \<and> length (history_of (out_data (validate_pass ''t'' net_down store1)) ''http://a/x.m3u'') = 3"
  by code_simp

section \<open>Properties of the Guide Extractor\<close>

lemma keys_update: "fst ` set (AList.update k v al) = insert k (fst ` set al)"
  by (induction al) auto

lemma nth_Cons_keys:
  "{(url # urls) ! j |j. j < Suc (length urls) \<and> parsed (fetch (i + j))} =
     (if parsed (fetch i) then {url} else {})
       \<union> {urls ! j |j. j < length urls \<and> parsed (fetch (Suc i + j))}"
proof -
  have "(\<exists>j. u = (url # urls) ! j \<and> j < Suc (length urls) \<and> parsed (fetch (i + j)))
        \<longleftrightarrow> (u = url \<and> parsed (fetch i))
            \<or> (\<exists>j. u = urls ! j \<and> j < length urls \<and> parsed (fetch (Suc i + j)))" for u
  proof
    assume "\<exists>j. u = (url # urls) ! j \<and> j < Suc (length urls) \<and> parsed (fetch (i + j))"
    then obtain j where j: "u = (url # urls) ! j" "j < Suc (length urls)" "parsed (fetch (i + j))"
      by blast
    show "(u = url \<and> parsed (fetch i))
            \<or> (\<exists>j. u = urls ! j \<and> j < length urls \<and> parsed (fetch (Suc i + j)))"
    proof (cases j)
      case 0
      then show ?thesis using j by simp
    next
      case (Suc m)
      then have "u = urls ! m \<and> m < length urls \<and> parsed (fetch (Suc i + m))"
        using j by simp
      then show ?thesis by blast
    qed
  next
    assume "(u = url \<and> parsed (fetch i))
            \<or> (\<exists>j. u = urls ! j \<and> j < length urls \<and> parsed (fetch (Suc i + j)))"
    then show "\<exists>j. u = (url # urls) ! j \<and> j < Suc (length urls) \<and> parsed (fetch (i + j))"
    proof
      assume "u = url \<and> parsed (fetch i)"
      then have "u = (url # urls) ! 0 \<and> 0 < Suc (length urls) \<and> parsed (fetch (i + 0))"
        by simp
      then show ?thesis by blast
    next
      assume "\<exists>j. u = urls ! j \<and> j < length urls \<and> parsed (fetch (Suc i + j))"
      then obtain j where "u = urls ! j" "j < length urls" "parsed (fetch (Suc i + j))"
        by blast
      then have "u = (url # urls) ! Suc j \<and> Suc j < Suc (length urls)
                 \<and> parsed (fetch (i + Suc j))"
        by simp
      then show ?thesis by blast
    qed
  qed
  then show ?thesis by auto
qed

lemma extract_epg_loop_keys:
  "fst ` set (extract_epg_loop fetch i urls acc) =
     fst ` set acc \<union> {urls ! j |j. j < length urls \<and> parsed (fetch (i + j))}"
proof (induction urls arbitrary: i acc)
  case Nil
  then show ?case by simp
next
  case (Cons url urls)
  show ?case
  proof (cases "fetch i")
    case (Failed e)
    then show ?thesis
      using Cons.IH [of "Suc i" acc] nth_Cons_keys [of url urls fetch i]
      by (simp add: parsed_def)
  next
    case (Document channels)
    then show ?thesis
      using Cons.IH [of "Suc i" "AList.update url (epg_entries_of url channels []) acc"]
        nth_Cons_keys [of url urls fetch i]
      by (simp add: parsed_def keys_update)
  qed
qed

lemma extract_epg_loop_distinct:
  "distinct (map fst acc) \<Longrightarrow> distinct (map fst (extract_epg_loop fetch i urls acc))"
proof (induction urls arbitrary: i acc)
  case Nil
  then show ?case by simp
next
  case (Cons url urls)
  then show ?case
    by (cases "fetch i") (simp_all add: distinct_update)
qed

text \<open>
  C9. The keys of the mapping the Guide Extractor produces are exactly the guide URLs whose
  fetch and parse succeeded: a URL whose fetch or parse failed (at every place it stands
  in the list) is no key at all, and the URLs after a failing one are still processed.
  With three URLs of which the second fails, the keys are the first and the third.
\<close>

theorem guide_keys_are_the_parsed_urls:
  "extract_epg_metadata fetch (Some d) = Some (extract_epg_loop fetch 0 (epg_urls d) [])
   \<and> fst ` set (extract_epg_loop fetch 0 (epg_urls d) []) =
       {epg_urls d ! i |i. i < length (epg_urls d) \<and> parsed (fetch i)}
   \<and> distinct (map fst (extract_epg_loop fetch 0 (epg_urls d) []))
   \<and> map fst (extract_epg_loop guide_fetch 0
                  [''http://g/a.xml'', ''http://g/b.xml'', ''http://g/c.xml''] [])
       = [''http://g/a.xml'', ''http://g/c.xml'']"
proof -
  have "map fst (extract_epg_loop guide_fetch 0
                  [''http://g/a.xml'', ''http://g/b.xml'', ''http://g/c.xml''] [])
       = [''http://g/a.xml'', ''http://g/c.xml'']"
    by code_simp
  then show ?thesis
    using extract_epg_loop_keys [of fetch 0 "epg_urls d" "[]"]
      extract_epg_loop_distinct [of "[]" fetch 0 "epg_urls d"]
    by (simp add: extract_epg_metadata_def)
qed

lemma guide_entries_example:
  "extract_epg_loop guide_fetch 0 [''http://g/a.xml'', ''http://g/b.xml'', ''http://g/c.xml''] [] =
     [(''http://g/a.xml'', [mk_entry (Some ''bbc1'') (Some ''BBC One HD'') ''http://g/a.xml'']),
      (''http://g/c.xml'', [mk_entry (Some ''bbc1'') (Some ''BBC One HD'') ''http://g/c.xml''])]"
  by code_simp

section \<open>Properties of the Playlist Extractor\<close>

lemma m3u_line_eq:
  "m3u_line url lines i channels =
     channels @ (if gives_record (lines ! i)
                 then [channel_of url (lines ! i) (stream_line lines i)] else [])"
  by (simp add: m3u_line_def gives_record_def is_header_def stream_line_def channel_of_def Let_def)

lemma fold_m3u_line:
  "fold (m3u_line url lines) [0..<n] channels =
     channels @ map (\<lambda>i. channel_of url (lines ! i) (stream_line lines i))
                    (filter (\<lambda>i. gives_record (lines ! i)) [0..<n])"
  by (induction n) (simp_all add: m3u_line_eq)

lemma header_attributes_example:
  "parse_playlist ''http://x/list.m3u''
     [''#EXTINF:-1 tvg-id='' @ [dquote] @ ''bbc1'' @ [dquote] @ '' tvg-name='' @ [dquote] @ ''BBC One''
        @ [dquote] @ '' tvg-logo='' @ [dquote] @ ''x.png'' @ [dquote] @ '' group-title='' @ [dquote]
        @ ''UK'' @ [dquote] @ '',BBC One'', ''http://x/bbc1.m3u8''] [] =
   [\<lparr>TVG_ID = ''bbc1'', TVG_NAME = ''BBC One'', TVG_LOGO = ''x.png'', TVG_GROUP = ''UK'',
     TVG_URL = ''http://x/bbc1.m3u8'', TVG_LANGUAGE = ''Unknown'', source_url = ''http://x/list.m3u'',
     matched_epg_id = None\<rparr>]"
  by code_simp

text \<open>
  C5 (as amended). The records of one playlist are those of its header lines that carry a
  name or an identifier, in order, and the stream URL of each is the line that follows
  the header, whatever that line is, or the empty string when the header is the last
  line: with a header, its stream line and a final header, the stream URLs are that line
  and the empty string.
\<close>

theorem stream_url_is_the_next_line:
  "parse_playlist url lines [] =
     map (\<lambda>i. channel_of url (lines ! i) (stream_line lines i))
         (filter (\<lambda>i. gives_record (lines ! i)) [0..<length lines])
   \<and> map TVG_URL (parse_playlist url lines []) =
       map (stream_line lines) (filter (\<lambda>i. gives_record (lines ! i)) [0..<length lines])
   \<and> stream_line lines i = (if i + 1 < length lines then lines ! (i + 1) else [])
   \<and> map TVG_URL (parse_playlist ''http://x/list.m3u''
                     [header ''bbc1'' ''BBC One'', ''http://x/bbc1.m3u8'', header ''itv1'' ''ITV1''] [])
       = [''http://x/bbc1.m3u8'', []]"
proof -
  have a: "parse_playlist url lines [] =
     map (\<lambda>i. channel_of url (lines ! i) (stream_line lines i))
         (filter (\<lambda>i. gives_record (lines ! i)) [0..<length lines])"
    by (simp add: parse_playlist_def fold_m3u_line)
  have b: "map TVG_URL (parse_playlist url lines []) =
       map (stream_line lines) (filter (\<lambda>i. gives_record (lines ! i)) [0..<length lines])"
    unfolding a by (simp add: channel_of_def Let_def comp_def)
  have c: "map TVG_URL (parse_playlist ''http://x/list.m3u''
                     [header ''bbc1'' ''BBC One'', ''http://x/bbc1.m3u8'', header ''itv1'' ''ITV1''] [])
       = [''http://x/bbc1.m3u8'', []]"
    by code_simp
  show ?thesis using a b c by (simp add: stream_line_def)
qed

text \<open>
  C5 as the specification states it fails: a header that is followed by another header
  takes that header line as its stream URL.
\<close>

theorem stream_url_can_be_a_marker_line:
  "map TVG_URL (parse_playlist ''http://x/list.m3u''
                  [header ''bbc1'' ''BBC One'', header ''itv1'' ''ITV1'', ''http://x/itv1.m3u8''] [])
     = [header ''itv1'' ''ITV1'', ''http://x/itv1.m3u8'']
   \<and> startswith (header ''itv1'' ''ITV1'') ''#EXTINF''"
  by code_simp

section \<open>Properties of the Integrity Auditor\<close>

text \<open>
  C4 on the code. Two entries of one source with an empty identifier and a display name:
  the first puts the empty identifier into the seen set, the second is reported as a
  duplicate of it. With three entries that have no identifier at all, two duplicates are
  reported.
\<close>

theorem audit_reports_missing_ids_as_duplicates:
  "duplicates (audit_epg_metadata
     [(''http://g/a.xml'', [mk_entry (Some []) (Some ''BBC One'') ''http://g/a.xml'',
                            mk_entry (Some []) (Some ''ITV1'') ''http://g/a.xml''])])
     = [(''http://g/a.xml'', Some [])]
   \<and> Some [] \<in> seen_ids (audit_epg_metadata
     [(''http://g/a.xml'', [mk_entry (Some []) (Some ''BBC One'') ''http://g/a.xml'',
                            mk_entry (Some []) (Some ''ITV1'') ''http://g/a.xml''])])
   \<and> duplicates (audit_epg_metadata
     [(''http://g/a.xml'', [mk_entry None (Some ''BBC One'') ''http://g/a.xml'',
                            mk_entry None (Some ''ITV1'') ''http://g/a.xml'',
                            mk_entry None (Some ''Channel 4'') ''http://g/a.xml''])])
     = [(''http://g/a.xml'', None), (''http://g/a.xml'', None)]"
  by (simp add: audit_epg_metadata_def mk_entry_def truthy_def Let_def)

section \<open>Properties of the Reconciler\<close>

text \<open>
  C2 on the code. Whatever the library function, the channel name, the guide entries and
  the threshold are, \<^verbatim>\<open>fuzzy_match_channel_name\<close> raises \<^verbatim>\<open>NameError\<close> for the name
  \<^verbatim>\<open>difflib\<close>; so it does for the channel "BBC One" against the pool "BBC One HD",
  "ITV1", and \<^verbatim>\<open>smart_match\<close> ends with that error as soon as a channel has a name.
\<close>

theorem fuzzy_match_raises_name_error:
  "fuzzy_match_channel_name close_matches channel_name epg_entries threshold
     = Inl (NameError ''difflib'')
   \<and> fuzzy_match_channel_name close_matches ''BBC One''
       [mk_entry (Some ''bbc1'') (Some ''BBC One HD'') ''http://g/a.xml'',
        mk_entry (Some ''itv1'') (Some ''ITV1'') ''http://g/a.xml''] threshold
     = Inl (NameError ''difflib'')
   \<and> smart_match close_matches threshold [mk_channel ''bbc1'' ''BBC One'']
       [(''http://g/a.xml'', [mk_entry (Some ''bbc1'') (Some ''BBC One'') ''http://g/a.xml''])]
     = Inl (NameError ''difflib'')"
proof -
  have "''difflib'' \<notin> set module_globals"
    by (simp add: module_globals_def)
  then have f: "fuzzy_match_channel_name cm n es th = Inl (NameError ''difflib'')"
    for cm :: "string \<Rightarrow> string list \<Rightarrow> nat \<Rightarrow> 'a \<Rightarrow> string list" and n es th
    by (simp add: fuzzy_match_channel_name_def Let_def)
  show ?thesis
    by (simp add: f smart_match_def mk_channel_def nonempty_def Let_def)
qed

end
